theory Spec2Isabelle
  imports Complex_Main "HOL-Library.Multiset"
begin

section \<open>Conventions of the embedding\<close>

text \<open>
  The library computes on JAX arrays of floating-point numbers. A one-dimensional array
  is a list of reals, a two-dimensional array the list of its rows, and an array's shape
  is read off the list lengths. Floats are idealised as reals: rounding and the
  non-finite values (infinities and NaN) are outside the model, so wherever the source
  can divide by zero the theorems below either do not depend on the quotient or assume
  the divisor non-zero. Everything the source raises is a value of \<open>error\<close>.
\<close>

datatype error = AssertionError | TypeError | ValueError | ShapeError

text \<open>Sequencing: the first raise ends the computation.\<close>

definition bind_err :: "error + 'a \<Rightarrow> ('a \<Rightarrow> error + 'b) \<Rightarrow> error + 'b" where
  "bind_err m f = (case m of Inl e \<Rightarrow> Inl e | Inr v \<Rightarrow> f v)"

type_synonym Solution = "real list"
type_synonym Population = "real list list"
type_synonym Fitness = "real list"

text \<open>
  NumPy broadcasting of two one-dimensional arrays: the shapes are compatible when they
  are equal or one of them is 1; otherwise the operation raises.
\<close>

definition bcast_ok :: "nat \<Rightarrow> nat \<Rightarrow> bool" where
  "bcast_ok m n = (m = n \<or> m = 1 \<or> n = 1)"

definition bcast :: "('a \<Rightarrow> 'b \<Rightarrow> 'c) \<Rightarrow> 'a list \<Rightarrow> 'b list \<Rightarrow> 'c list" where
  "bcast f xs ys =
     (if length xs = length ys then map2 f xs ys
      else if length xs = 1 then map (f (hd xs)) ys
      else map (\<lambda>x. f x (hd ys)) xs)"

definition bcast_op :: "('a \<Rightarrow> 'b \<Rightarrow> 'c) \<Rightarrow> 'a list \<Rightarrow> 'b list \<Rightarrow> error + 'c list" where
  "bcast_op f xs ys =
     (if bcast_ok (length xs) (length ys) then Inr (bcast f xs ys) else Inl ShapeError)"

text \<open>
  \<open>jnp.clip(x, lo, hi)\<close> is \<open>minimum(hi, maximum(x, lo))\<close>; with only \<open>min=lo\<close> given it is
  \<open>maximum(x, lo)\<close>.
\<close>

definition clip :: "real \<Rightarrow> real \<Rightarrow> real \<Rightarrow> real" where
  "clip x lo hi = min hi (max x lo)"

definition clip_min :: "real \<Rightarrow> real \<Rightarrow> real" where
  "clip_min x lo = max x lo"

text \<open>
  Reductions. On the NaN-free arrays of the model \<open>nanmean\<close>, \<open>nanstd\<close>, \<open>nanmin\<close> and
  \<open>nanmax\<close> are mean, population standard deviation, minimum and maximum. \<open>nanmin\<close> and
  \<open>nanmax\<close> raise on an empty array; their callers below test for emptiness first.
\<close>

definition nanmean :: "real list \<Rightarrow> real" where
  "nanmean xs = sum_list xs / real (length xs)"

definition nanstd :: "real list \<Rightarrow> real" where
  "nanstd xs = sqrt (nanmean (map (\<lambda>x. (x - nanmean xs)\<^sup>2) xs))"

definition nanmin :: "real list \<Rightarrow> real" where
  "nanmin xs = fold min (tl xs) (hd xs)"

definition nanmax :: "real list \<Rightarrow> real" where
  "nanmax xs = fold max (tl xs) (hd xs)"

text \<open>
  \<open>jnp.argsort\<close> is a stable sort of the indices by their values, \<open>jnp.argmin\<close> the first
  index of a least value (it raises on an empty array).
\<close>

definition argsort :: "real list \<Rightarrow> nat list" where
  "argsort xs = sort_key (\<lambda>i. xs ! i) [0..<length xs]"

fun argmin_from :: "nat \<Rightarrow> real \<Rightarrow> nat \<Rightarrow> real list \<Rightarrow> nat" where
  "argmin_from b m i [] = b"
| "argmin_from b m i (x # xs) =
     (if x < m then argmin_from i x (Suc i) xs else argmin_from b m (Suc i) xs)"

definition argmin :: "real list \<Rightarrow> error + nat" where
  "argmin xs = (case xs of [] \<Rightarrow> Inl ValueError | x # r \<Rightarrow> Inr (argmin_from 0 x 1 r))"

text \<open>
  \<open>a[idx]\<close> with an index array gathers; JAX clamps an index beyond the end, and an
  empty \<open>a\<close> cannot be gathered from.
\<close>

definition take_clamped :: "'a list \<Rightarrow> nat \<Rightarrow> 'a" where
  "take_clamped a i = a ! min i (length a - 1)"

text \<open>
  \<open>base.at[ind].set(vals)\<close>: a scatter; an index beyond the end is dropped, which is
  what list update does.
\<close>

definition scatter_set :: "'a list \<Rightarrow> nat list \<Rightarrow> 'a list \<Rightarrow> 'a list" where
  "scatter_set base ind vals = fold (\<lambda>(i, v) acc. acc[i := v]) (zip ind vals) base"

section \<open>core/fitness.py\<close>

text \<open>
  The constructor's flags are typed \<open>bool | int\<close> and pass through Python's \<open>bool()\<close>.
\<close>

datatype pyflag = PyBool bool | PyInt int

fun py_bool :: "pyflag \<Rightarrow> bool" where
  "py_bool (PyBool b) = b"
| "py_bool (PyInt i) = (i \<noteq> 0)"

record FitnessShaper =
  fs_w_decay :: real
  fs_maximize :: bool
  fs_centered_rank :: bool
  fs_z_score :: bool
  fs_norm_range :: bool

definition trafo_names :: "string list" where
  "trafo_names = [''centered_rank'', ''z_score'', ''norm_range'', ''raw'']"

definition FitnessShaper_init ::
  "pyflag \<Rightarrow> pyflag \<Rightarrow> pyflag \<Rightarrow> real \<Rightarrow> pyflag \<Rightarrow> string option \<Rightarrow> error + FitnessShaper" where
  "FitnessShaper_init centered_rank z_score norm_range w_decay maximize fitness_trafo =
     (let by_name = (case fitness_trafo of None \<Rightarrow> False | Some s \<Rightarrow> s \<in> set trafo_names);
          cr = (if by_name then fitness_trafo = Some ''centered_rank'' else py_bool centered_rank);
          zs = (if by_name then fitness_trafo = Some ''z_score'' else py_bool z_score);
          nr = (if by_name then fitness_trafo = Some ''norm_range'' else py_bool norm_range);
          num_options_on = (of_bool cr + of_bool zs + of_bool nr :: nat)
      in if num_options_on < 2
         then Inr \<lparr>fs_w_decay = w_decay, fs_maximize = py_bool maximize,
                   fs_centered_rank = cr, fs_z_score = zs, fs_norm_range = nr\<rparr>
         else Inl AssertionError)"

text \<open>
  Whether \<open>fitness_trafo\<close> is one of the four selector names, and how many of the three
  flags are on.
\<close>

definition selector_given :: "string option \<Rightarrow> bool" where
  "selector_given fitness_trafo =
     (case fitness_trafo of None \<Rightarrow> False | Some s \<Rightarrow> s \<in> set trafo_names)"

definition num_enabled :: "pyflag \<Rightarrow> pyflag \<Rightarrow> pyflag \<Rightarrow> nat" where
  "num_enabled a b c = length (filter py_bool [a, b, c])"

definition z_score_trafo :: "real list \<Rightarrow> real list" where
  "z_score_trafo arr = map (\<lambda>x. (x - nanmean arr) / (nanstd arr + 1 / 10 ^ 10)) arr"

definition ranksort :: "Fitness \<Rightarrow> nat list" where
  "ranksort fitness =
     (let idx = argsort fitness
      in scatter_set idx idx [0..<length fitness])"

text \<open>
  \<open>y /= fitness.size - 1\<close> divides the integer ranks by an integer computed in Python, so
  the divisor is \<open>-1\<close> for an empty vector and \<open>0\<close> for a single value, where the source
  yields NaN; the theorem on the transform is about two values or more.
\<close>

definition centered_rank_trafo :: "Fitness \<Rightarrow> real list" where
  "centered_rank_trafo fitness =
     map (\<lambda>y. real y / real_of_int (int (length fitness) - 1) - 1 / 2) (ranksort fitness)"

definition compute_l2_norm :: "Population \<Rightarrow> real list" where
  "compute_l2_norm solution = map (\<lambda>x. nanmean (map (\<lambda>v. v * v) x)) solution"

definition range_norm_trafo :: "real list \<Rightarrow> real \<Rightarrow> real \<Rightarrow> error + real list" where
  "range_norm_trafo arr min_val max_val =
     (let arr = map (\<lambda>x. clip x (- (10 ^ 10)) (10 ^ 10)) arr
      in if arr = [] then Inl ValueError
         else Inr (map (\<lambda>x. (max_val - min_val) * (x - nanmin arr)
                              / (nanmax arr - nanmin arr + 1 / 10 ^ 10) + min_val) arr))"

definition FitnessShaper_apply :: "FitnessShaper \<Rightarrow> Population \<Rightarrow> Fitness \<Rightarrow> error + Fitness" where
  "FitnessShaper_apply self population fitness =
     (let fitness = (if fs_maximize self then map (\<lambda>f. - 1 * f) fitness else fitness)
      in case (if fs_w_decay self > 0
               then bcast_op (+) fitness (map (\<lambda>l. fs_w_decay self * l) (compute_l2_norm population))
               else Inr fitness) of
           Inl e \<Rightarrow> Inl e
         | Inr fitness \<Rightarrow>
             (let fitness = (if fs_centered_rank self then centered_rank_trafo fitness else fitness);
                  fitness = (if fs_z_score self then z_score_trafo fitness else fitness)
              in if fs_norm_range self then range_norm_trafo fitness (- 1) 1 else Inr fitness))"

section \<open>learned_evolution/les_tools.py\<close>

text \<open>
  The module imports \<open>centered_rank\<close>, \<open>standardize\<close>, \<open>normalize\<close> and \<open>l2_norm_sq\<close>
  from a sibling module \<open>fitness_shaping\<close> whose source is not available; they are
  parameters of the model.
\<close>

record fitness_shaping =
  centered_rank :: "real list \<Rightarrow> real list"
  standardize :: "real list \<Rightarrow> real list"
  normalize :: "real list \<Rightarrow> real \<Rightarrow> real \<Rightarrow> real list"
  l2_norm_sq :: "real list list \<Rightarrow> real list"

record FitnessFeatures =
  ff_centered_rank :: bool
  ff_z_score :: bool
  ff_w_decay :: real
  ff_diff_best :: bool
  ff_norm_range :: bool
  ff_maximize :: bool

text \<open>
  \<open>jnp.concatenate([fit_out, col.reshape(-1, 1)], axis=1)\<close>: the feature matrix is the
  list of its rows, and the new column needs as many entries as there are rows.
\<close>

definition concat_col :: "real list list \<Rightarrow> real list \<Rightarrow> error + real list list" where
  "concat_col fit_out col =
     (if length fit_out = length col then Inr (map2 (\<lambda>r c. r @ [c]) fit_out col)
      else Inl ShapeError)"

text \<open>
  \<open>norm_diff_best\<close> evaluates \<open>jnp.nanmax(diff_best)\<close>, which raises on an empty array,
  and then \<open>jnp.nanmin(diff_best.min)\<close>: the argument is the bound method \<open>min\<close>, not
  an array, and \<open>jnp.nanmin\<close> rejects it with a TypeError. No path returns.
\<close>

definition norm_diff_best :: "real list \<Rightarrow> real \<Rightarrow> error + real list" where
  "norm_diff_best fitness best_fitness =
     (let fitness = map (\<lambda>f. clip f (- (10 ^ 10)) (10 ^ 10)) fitness;
          diff_best = map (\<lambda>f. f - best_fitness) fitness
      in if diff_best = [] then Inl ValueError else Inl TypeError)"

definition FitnessFeatures_apply ::
  "fitness_shaping \<Rightarrow> FitnessFeatures \<Rightarrow> real list list \<Rightarrow> real list \<Rightarrow> real
     \<Rightarrow> error + real list list" where
  "FitnessFeatures_apply lib self x fitness best_fitness =
     (let fitness = (if ff_maximize self then map (\<lambda>f. - 1 * f) fitness else fitness);
          fit_out = map (\<lambda>f. [of_bool (f < best_fitness) * 1]) fitness
      in bind_err (if ff_centered_rank self
                   then concat_col fit_out (centered_rank lib fitness) else Inr fit_out)
         (\<lambda>fit_out.
          bind_err (if ff_z_score self
                    then concat_col fit_out (standardize lib fitness) else Inr fit_out)
         (\<lambda>fit_out.
          bind_err (if ff_diff_best self
                    then bind_err (norm_diff_best fitness best_fitness) (concat_col fit_out)
                    else Inr fit_out)
         (\<lambda>fit_out.
          bind_err (if ff_norm_range self
                    then concat_col fit_out (normalize lib fitness (- 1) 1) else Inr fit_out)
         (\<lambda>fit_out.
          if ff_w_decay self \<noteq> 0
          then concat_col fit_out (l2_norm_sq lib x) else Inr fit_out)))))"

section \<open>Random keys\<close>

text \<open>
  \<open>jax.random\<close> is an external library: its generators are parameters of the model.
  \<open>rand_split k n i\<close> is entry \<open>i\<close> of \<open>split(k, n)\<close>; \<open>rand_uniform k shape i\<close> and
  \<open>rand_normal k shape i\<close> are entry \<open>i\<close> (in row-major order) of the array drawn from
  key \<open>k\<close> with the given shape. \<open>uniform\<close> draws from the half-open interval from 0
  to 1, which \<open>uniform_range\<close> states.
\<close>

record 'k prng =
  rand_split :: "'k \<Rightarrow> nat \<Rightarrow> nat \<Rightarrow> 'k"
  rand_uniform :: "'k \<Rightarrow> nat list \<Rightarrow> nat \<Rightarrow> real"
  rand_normal :: "'k \<Rightarrow> nat list \<Rightarrow> nat \<Rightarrow> real"

definition uniform_range :: "'k prng \<Rightarrow> bool" where
  "uniform_range rng = (\<forall>k s i. 0 \<le> rand_uniform rng k s i \<and> rand_uniform rng k s i < 1)"

definition jax_split :: "'k prng \<Rightarrow> 'k \<Rightarrow> nat \<Rightarrow> 'k list" where
  "jax_split rng key n = map (rand_split rng key n) [0..<n]"

definition jax_uniform0 :: "'k prng \<Rightarrow> 'k \<Rightarrow> real" where
  "jax_uniform0 rng key = rand_uniform rng key [] 0"

definition jax_uniform1 :: "'k prng \<Rightarrow> 'k \<Rightarrow> nat \<Rightarrow> real list" where
  "jax_uniform1 rng key d = map (rand_uniform rng key [d]) [0..<d]"

definition jax_normal1 :: "'k prng \<Rightarrow> 'k \<Rightarrow> nat \<Rightarrow> real list" where
  "jax_normal1 rng key d = map (rand_normal rng key [d]) [0..<d]"

definition jax_normal2 :: "'k prng \<Rightarrow> 'k \<Rightarrow> nat \<Rightarrow> nat \<Rightarrow> real list list" where
  "jax_normal2 rng key n d =
     map (\<lambda>i. map (\<lambda>j. rand_normal rng key [n, d] (i * d + j)) [0..<d]) [0..<n]"

text \<open>
  \<open>jax.random.choice(key, a, (n,), p=p)\<close> samples with replacement by inverting the
  cumulative weights: with \<open>p_cuml = cumsum(p)\<close> it draws \<open>u\<close> uniformly, sets
  \<open>r = p_cuml[-1] * (1 - u)\<close> and takes the entry of \<open>a\<close> at \<open>searchsorted(p_cuml, r)\<close>,
  the first position whose cumulative weight reaches \<open>r\<close>. It raises when \<open>a\<close> is empty
  while samples are requested, and when \<open>p\<close> has not one weight per entry of \<open>a\<close>.
\<close>

fun cumsum_from :: "real \<Rightarrow> real list \<Rightarrow> real list" where
  "cumsum_from acc [] = []"
| "cumsum_from acc (x # xs) = (acc + x) # cumsum_from (acc + x) xs"

definition cumsum :: "real list \<Rightarrow> real list" where
  "cumsum xs = cumsum_from 0 xs"

definition searchsorted :: "real list \<Rightarrow> real \<Rightarrow> nat" where
  "searchsorted a v = length (takeWhile (\<lambda>c. c < v) a)"

definition choice_indices :: "'k prng \<Rightarrow> 'k \<Rightarrow> nat \<Rightarrow> real list \<Rightarrow> nat list" where
  "choice_indices rng key n p =
     (let p_cuml = cumsum p
      in map (\<lambda>i. searchsorted p_cuml (last p_cuml * (1 - rand_uniform rng key [n] i))) [0..<n])"

definition jax_choice :: "'k prng \<Rightarrow> 'k \<Rightarrow> 'a list \<Rightarrow> nat \<Rightarrow> real list \<Rightarrow> error + 'a list" where
  "jax_choice rng key a n p =
     (if n = 0 then Inr []
      else if a = [] then Inl ValueError
      else if length p \<noteq> length a then Inl ValueError
      else Inr (map (\<lambda>i. a ! i) (choice_indices rng key n p)))"

section \<open>strategies/sim_anneal.py\<close>

text \<open>
  \<open>population_size\<close> and \<open>num_dims\<close> are attributes the strategy inherits from the base
  class \<open>Strategy\<close>, whose source is not available, as are the state fields
  \<open>best_solution\<close>, \<open>best_fitness\<close> and \<open>generation_counter\<close> that \<open>_init\<close> fills in.
  Fields that both strategies name alike (\<open>std\<close>, \<open>std_decay\<close>, \<open>population_size\<close>, ...)
  carry the prefix \<open>sa_\<close> here and \<open>ga_\<close> in the genetic search.
\<close>

record SimAnneal =
  sa_population_size :: nat
  sa_num_dims :: nat

record SA_State =
  current_solution :: Solution
  current_fitness :: real
  sa_std :: real
  temperature :: real
  sa_best_solution :: Solution
  sa_best_fitness :: real
  sa_generation_counter :: nat

record SA_Params =
  sa_std_init :: real
  sa_std_decay :: real
  sa_std_limit :: real
  temperature_init :: real
  temperature_limit :: real
  temperature_decay :: real
  boltzmann_constant :: real

definition SimAnneal_ask ::
  "'k prng \<Rightarrow> SimAnneal \<Rightarrow> 'k \<Rightarrow> SA_State \<Rightarrow> SA_Params \<Rightarrow> error + Population \<times> SA_State" where
  "SimAnneal_ask rng self key state params =
     (let z = jax_normal2 rng key (sa_population_size self) (sa_num_dims self)
      in if bcast_ok (length (current_solution state)) (sa_num_dims self)
         then Inr (map (\<lambda>row. bcast (+) (current_solution state)
                                 (map (\<lambda>v. sa_std state * v) row)) z, state)
         else Inl ShapeError)"

text \<open>
  In \<open>_tell\<close> the quotient \<open>-delta / (boltzmann_constant * temperature)\<close> is infinite or NaN
  in the source when the divisor is zero; the model is meant for a non-zero divisor, and
  the theorem on the acceptance rule assumes it. An empty \<open>population\<close> cannot be indexed.
\<close>

definition SimAnneal_tell ::
  "'k prng \<Rightarrow> 'k \<Rightarrow> Population \<Rightarrow> Fitness \<Rightarrow> SA_State \<Rightarrow> SA_Params \<Rightarrow> error + SA_State" where
  "SimAnneal_tell rng key population fitness state params =
     bind_err (argmin fitness) (\<lambda>best_idx.
       if population = [] then Inl ShapeError
       else
         (let best_member = take_clamped population best_idx;
              best_fitness = fitness ! best_idx;
              delta = best_fitness - current_fitness state;
              metropolis = exp (- delta / (boltzmann_constant params * temperature state));
              acceptance = jax_uniform0 rng key;
              replace = (delta < 0 \<or> acceptance < metropolis);
              std = clip_min (sa_std state * sa_std_decay params) (sa_std_limit params);
              temp = clip_min (temperature state * temperature_decay params)
                       (temperature_limit params)
          in if bcast_ok (length best_member) (length (current_solution state))
             then Inr (state\<lparr>current_solution :=
                                 bcast (\<lambda>a b. if replace then a else b)
                                   best_member (current_solution state),
                               current_fitness :=
                                 (if replace then best_fitness else current_fitness state),
                               sa_std := std,
                               temperature := temp\<rparr>)
             else Inl ShapeError))"

text \<open>
  The shapes \<open>_tell\<close> is called with: one fitness value per member, at least one member,
  and members of the dimension of the current solution.
\<close>

definition well_shaped :: "Population \<Rightarrow> Fitness \<Rightarrow> SA_State \<Rightarrow> bool" where
  "well_shaped population fitness state =
     (fitness \<noteq> [] \<and> length population = length fitness \<and>
      list_all (\<lambda>row. length row = length (current_solution state)) population)"

section \<open>strategies/simple_ga.py\<close>

text \<open>
  \<open>_ask\<close> reads \<open>self.num_elites\<close>, which no source file at hand assigns
  (\<open>__init__\<close> sets only \<open>elite_ratio = 0.5\<close>); it is a parameter of the model.
\<close>

record SimpleGA =
  ga_population_size :: nat
  ga_num_dims :: nat
  elite_ratio :: real
  num_elites :: nat

record GA_State =
  ga_population :: Population
  ga_fitness :: Fitness
  ga_std :: real
  ga_best_solution :: Solution
  ga_best_fitness :: real
  ga_generation_counter :: nat

record GA_Params =
  crossover_rate :: real
  ga_std_init :: real
  ga_std_decay :: real
  ga_std_limit :: real

definition SimpleGA_init :: "nat \<Rightarrow> nat \<Rightarrow> nat \<Rightarrow> SimpleGA" where
  "SimpleGA_init population_size n_dims n_elites =
     \<lparr>ga_population_size = population_size, ga_num_dims = n_dims,
      elite_ratio = 1 / 2, num_elites = n_elites\<rparr>"

text \<open>
  Rows of one array have one length, so the element-wise operations of \<open>crossover\<close> and
  \<open>mutation\<close> pair the entries of their operands.
\<close>

definition crossover :: "'k prng \<Rightarrow> 'k \<Rightarrow> Solution \<Rightarrow> Solution \<Rightarrow> real \<Rightarrow> Solution" where
  "crossover rng key parent_1 parent_2 rate =
     (let mask = map (\<lambda>u. u < rate) (jax_uniform1 rng key (length parent_1))
      in map2 (+) (map2 (\<lambda>p m. p * (1 - of_bool m)) parent_1 mask)
                  (map2 (\<lambda>p m. p * of_bool m) parent_2 mask))"

definition mutation :: "'k prng \<Rightarrow> 'k \<Rightarrow> Solution \<Rightarrow> real \<Rightarrow> Solution" where
  "mutation rng key solution std =
     map2 (\<lambda>s z. s + std * z) solution (jax_normal1 rng key (length solution))"

text \<open>The elites: the population sorted by fitness, and the selection weights.\<close>

definition SimpleGA_sorted :: "GA_State \<Rightarrow> Population" where
  "SimpleGA_sorted state =
     (let idx = argsort (ga_fitness state)
      in map (take_clamped (ga_population state)) idx)"

definition SimpleGA_p :: "SimpleGA \<Rightarrow> real list" where
  "SimpleGA_p self = map (\<lambda>i. of_bool (i < num_elites self)) [0..<ga_population_size self]"

text \<open>
  The two parent arrays, drawn from the keys \<open>key_1\<close> and \<open>key_2\<close>. Gathering the sorted
  population out of an empty array fails.
\<close>

definition SimpleGA_parents ::
  "'k prng \<Rightarrow> SimpleGA \<Rightarrow> 'k \<Rightarrow> GA_State \<Rightarrow> error + Population \<times> Population" where
  "SimpleGA_parents rng self key state =
     (if ga_population state = [] \<and> ga_fitness state \<noteq> [] then Inl ShapeError
      else
        (let population = SimpleGA_sorted state;
             p = SimpleGA_p self;
             keys = jax_split rng key 4;
             key_1 = keys ! 2;
             key_2 = keys ! 3
         in bind_err (jax_choice rng key_1 population (ga_population_size self) p) (\<lambda>parents_1.
            bind_err (jax_choice rng key_2 population (ga_population_size self) p) (\<lambda>parents_2.
            Inr (parents_1, parents_2)))))"

text \<open>The offspring after crossover, before mutation.\<close>

definition SimpleGA_crossed ::
  "'k prng \<Rightarrow> SimpleGA \<Rightarrow> 'k \<Rightarrow> GA_State \<Rightarrow> GA_Params \<Rightarrow> error + Population" where
  "SimpleGA_crossed rng self key state params =
     bind_err (SimpleGA_parents rng self key state) (\<lambda>(parents_1, parents_2).
       (let keys = jax_split rng key 4;
            key_crossover = jax_split rng (keys ! 0) (ga_population_size self)
        in Inr (map (\<lambda>i. crossover rng (key_crossover ! i) (parents_1 ! i) (parents_2 ! i)
                           (crossover_rate params))
                  [0..<ga_population_size self])))"

definition SimpleGA_ask ::
  "'k prng \<Rightarrow> SimpleGA \<Rightarrow> 'k \<Rightarrow> GA_State \<Rightarrow> GA_Params \<Rightarrow> error + Population \<times> GA_State" where
  "SimpleGA_ask rng self key state params =
     bind_err (SimpleGA_crossed rng self key state params) (\<lambda>population.
       (let keys = jax_split rng key 4;
            key_mutation = jax_split rng (keys ! 1) (ga_population_size self)
        in Inr (map (\<lambda>i. mutation rng (key_mutation ! i) (population ! i) (ga_std state))
                  [0..<ga_population_size self], state)))"

definition SimpleGA_tell ::
  "'k \<Rightarrow> Population \<Rightarrow> Fitness \<Rightarrow> GA_State \<Rightarrow> GA_Params \<Rightarrow> GA_State" where
  "SimpleGA_tell key population fitness state params =
     (let std = clip_min (ga_std state * ga_std_decay params) (ga_std_limit params)
      in state\<lparr>ga_population := population, ga_fitness := fitness, ga_std := std\<rparr>)"

text \<open>
  The shapes \<open>_ask\<close> relies on: the state holds \<open>population_size\<close> members and as many
  fitness values, and every member has \<open>num_dims\<close> entries.
\<close>

definition ga_shaped :: "SimpleGA \<Rightarrow> GA_State \<Rightarrow> bool" where
  "ga_shaped self state =
     (length (ga_population state) = ga_population_size self \<and>
      length (ga_fitness state) = ga_population_size self \<and>
      list_all (\<lambda>row. length row = ga_num_dims self) (ga_population state))"

section \<open>The shaping steps in the words of the specification\<close>

text \<open>
  The specification describes \<open>FitnessShaper.apply\<close> as three steps in a fixed order. Each
  step is defined here from that description, independently of the code: negation when
  \<open>maximize\<close> is set; the penalty \<open>w_decay\<close> times the mean of the squared parameters of
  a member, added to that member's fitness, when \<open>w_decay > 0\<close>; and the single enabled
  transform, if any. A shaper with two transforms on does not exist (construction
  rejects it), and \<open>spec_transform\<close> reports that case as the same assertion error.
\<close>

datatype trafo = CenteredRank | ZScore | NormRange

definition spec_negate :: "FitnessShaper \<Rightarrow> Fitness \<Rightarrow> Fitness" where
  "spec_negate self fitness = (if fs_maximize self then map uminus fitness else fitness)"

definition spec_w_decay :: "FitnessShaper \<Rightarrow> Population \<Rightarrow> Fitness \<Rightarrow> Fitness" where
  "spec_w_decay self population fitness =
     (if fs_w_decay self > 0
      then map2 (\<lambda>f x. f + fs_w_decay self * (sum_list (map (\<lambda>v. v\<^sup>2) x) / real (length x)))
             fitness population
      else fitness)"

definition enabled_trafos :: "FitnessShaper \<Rightarrow> trafo list" where
  "enabled_trafos self =
     (if fs_centered_rank self then [CenteredRank] else []) @
     (if fs_z_score self then [ZScore] else []) @
     (if fs_norm_range self then [NormRange] else [])"

fun apply_trafo :: "trafo \<Rightarrow> Fitness \<Rightarrow> error + Fitness" where
  "apply_trafo CenteredRank fitness = Inr (centered_rank_trafo fitness)"
| "apply_trafo ZScore fitness = Inr (z_score_trafo fitness)"
| "apply_trafo NormRange fitness = range_norm_trafo fitness (- 1) 1"

definition spec_transform :: "FitnessShaper \<Rightarrow> Fitness \<Rightarrow> error + Fitness" where
  "spec_transform self fitness =
     (case enabled_trafos self of
        [] \<Rightarrow> Inr fitness
      | [t] \<Rightarrow> apply_trafo t fitness
      | _ \<Rightarrow> Inl AssertionError)"

section \<open>Concrete inputs\<close>

text \<open>
  Inputs the theorems below are run on: a generator whose uniform draws are all one half
  and whose normal draws are all zero, a small annealing run, a genetic search with four
  members of which two are elites, and a configuration for each of the two shapers.
\<close>

definition rng0 :: "nat prng" where
  "rng0 = \<lparr>rand_split = (\<lambda>k n i. k + i), rand_uniform = (\<lambda>k s i. 1 / 2),
           rand_normal = (\<lambda>k s i. 0)\<rparr>"

definition sa_state0 :: SA_State where
  "sa_state0 = \<lparr>current_solution = [0, 0], current_fitness = 10, sa_std = 1, temperature = 1,
                sa_best_solution = [0, 0], sa_best_fitness = 10, sa_generation_counter = 0\<rparr>"

definition sa_params0 :: SA_Params where
  "sa_params0 = \<lparr>sa_std_init = 1, sa_std_decay = 1 / 2, sa_std_limit = 0, temperature_init = 1,
                 temperature_limit = 1 / 10, temperature_decay = 1 / 2, boltzmann_constant = 5\<rparr>"

definition ga_state0 :: GA_State where
  "ga_state0 = \<lparr>ga_population = [[3, 3], [1, 1], [2, 2], [0, 0]], ga_fitness = [18, 2, 8, 0],
                ga_std = 1, ga_best_solution = [0, 0], ga_best_fitness = 0,
                ga_generation_counter = 0\<rparr>"

definition ga_params0 :: GA_Params where
  "ga_params0 = \<lparr>crossover_rate = 0, ga_std_init = 1, ga_std_decay = 1 / 2, ga_std_limit = 0\<rparr>"

definition sa0 :: SimAnneal where
  "sa0 = \<lparr>sa_population_size = 2, sa_num_dims = 2\<rparr>"

definition ga0 :: SimpleGA where
  "ga0 = SimpleGA_init 4 2 2"

definition lib0 :: fitness_shaping where
  "lib0 = \<lparr>centered_rank = centered_rank_trafo, standardize = z_score_trafo,
           normalize = (\<lambda>arr lo hi. map (\<lambda>x. clip x lo hi) arr),
           l2_norm_sq = compute_l2_norm\<rparr>"

definition features0 :: FitnessFeatures where
  "features0 = \<lparr>ff_centered_rank = False, ff_z_score = False, ff_w_decay = 0,
                ff_diff_best = True, ff_norm_range = False, ff_maximize = False\<rparr>"

definition shaper0 :: FitnessShaper where
  "shaper0 = \<lparr>fs_w_decay = 1 / 2, fs_maximize = True, fs_centered_rank = False,
              fs_z_score = False, fs_norm_range = True\<rparr>"

section \<open>Facts about the array primitives\<close>

text \<open>\<open>argmin\<close> returns the first index of a least entry.\<close>

lemma argmin_from_first_least:
  assumes "b < length ys" "m = ys ! b" "i = length ys"
    and "\<forall>j<length ys. m \<le> ys ! j" "\<forall>j<b. m < ys ! j"
  shows "argmin_from b m i xs < length (ys @ xs) \<and>
         (\<forall>j<length (ys @ xs). (ys @ xs) ! argmin_from b m i xs \<le> (ys @ xs) ! j) \<and>
         (\<forall>j<argmin_from b m i xs. (ys @ xs) ! argmin_from b m i xs < (ys @ xs) ! j)"
  using assms
proof (induction xs arbitrary: b m i ys)
  case Nil
  then show ?case by simp
next
  case (Cons x xs)
  show ?case
  proof (cases "x < m")
    case True
    have "argmin_from i x (Suc i) xs < length ((ys @ [x]) @ xs) \<and>
         (\<forall>j<length ((ys @ [x]) @ xs). ((ys @ [x]) @ xs) ! argmin_from i x (Suc i) xs \<le> ((ys @ [x]) @ xs) ! j) \<and>
         (\<forall>j<argmin_from i x (Suc i) xs. ((ys @ [x]) @ xs) ! argmin_from i x (Suc i) xs < ((ys @ [x]) @ xs) ! j)"
    proof (rule Cons.IH)
      show "i < length (ys @ [x])" using Cons.prems by simp
      show "x = (ys @ [x]) ! i" using Cons.prems by simp
      show "Suc i = length (ys @ [x])" using Cons.prems by simp
      show "\<forall>j<length (ys @ [x]). x \<le> (ys @ [x]) ! j"
      proof (intro allI impI)
        fix j assume "j < length (ys @ [x])"
        then consider "j < length ys" | "j = length ys" by fastforce
        then show "x \<le> (ys @ [x]) ! j"
        proof cases
          case 1
          then have "m \<le> ys ! j" using Cons.prems by simp
          then show ?thesis using True 1 by (simp add: nth_append)
        next
          case 2
          then show ?thesis by simp
        qed
      qed
      show "\<forall>j<i. x < (ys @ [x]) ! j"
        using Cons.prems True by (auto simp: nth_append)
    qed
    then show ?thesis using True by simp
  next
    case False
    have "argmin_from b m (Suc i) xs < length ((ys @ [x]) @ xs) \<and>
         (\<forall>j<length ((ys @ [x]) @ xs). ((ys @ [x]) @ xs) ! argmin_from b m (Suc i) xs \<le> ((ys @ [x]) @ xs) ! j) \<and>
         (\<forall>j<argmin_from b m (Suc i) xs. ((ys @ [x]) @ xs) ! argmin_from b m (Suc i) xs < ((ys @ [x]) @ xs) ! j)"
    proof (rule Cons.IH)
      show "b < length (ys @ [x])" using Cons.prems by simp
      show "m = (ys @ [x]) ! b" using Cons.prems by (simp add: nth_append)
      show "Suc i = length (ys @ [x])" using Cons.prems by simp
      show "\<forall>j<length (ys @ [x]). m \<le> (ys @ [x]) ! j"
        using Cons.prems False by (auto simp: nth_append less_Suc_eq)
      show "\<forall>j<b. m < (ys @ [x]) ! j"
        using Cons.prems by (auto simp: nth_append)
    qed
    then show ?thesis using False by simp
  qed
qed

lemma argmin_first_least:
  assumes "fitness \<noteq> []"
  shows "\<exists>i. argmin fitness = Inr i \<and> i < length fitness \<and>
             (\<forall>j<length fitness. fitness ! i \<le> fitness ! j) \<and>
             (\<forall>j<i. fitness ! i < fitness ! j)"
proof -
  obtain x r where xr: "fitness = x # r" using assms by (cases fitness) auto
  have "argmin_from 0 x 1 r < length ([x] @ r) \<and>
         (\<forall>j<length ([x] @ r). ([x] @ r) ! argmin_from 0 x 1 r \<le> ([x] @ r) ! j) \<and>
         (\<forall>j<argmin_from 0 x 1 r. ([x] @ r) ! argmin_from 0 x 1 r < ([x] @ r) ! j)"
    by (rule argmin_from_first_least) simp_all
  then show ?thesis by (simp add: xr argmin_def)
qed

lemma least_is_Min:
  assumes "i < length (xs :: real list)" "\<forall>j<length xs. xs ! i \<le> xs ! j"
  shows "xs ! i = Min (set xs)"
proof -
  have "xs ! i \<in> set xs" using assms by simp
  moreover have "\<forall>y\<in>set xs. xs ! i \<le> y" using assms by (auto simp: in_set_conv_nth)
  ultimately show ?thesis by (intro Min_eqI [symmetric]) auto
qed

section \<open>Construction of the fitness shaper\<close>

text \<open>
  C5. Without a selector name in \<open>fitness_trafo\<close>, constructing a shaper with more than
  one of \<open>centered_rank\<close>, \<open>z_score\<close>, \<open>norm_range\<close> on fails in the constructor with the
  assertion error, and with at most one on it returns the shaper carrying the flags.
\<close>

theorem FitnessShaper_init_exclusive:
  assumes "\<not> selector_given fitness_trafo"
  shows "FitnessShaper_init cr zs nr w m fitness_trafo =
           (if 1 < num_enabled cr zs nr then Inl AssertionError
            else Inr \<lparr>fs_w_decay = w, fs_maximize = py_bool m, fs_centered_rank = py_bool cr,
                      fs_z_score = py_bool zs, fs_norm_range = py_bool nr\<rparr>)"
  using assms
  by (auto simp: FitnessShaper_init_def selector_given_def num_enabled_def split: option.splits)

theorem FitnessShaper_init_exclusive_witness:
  "\<not> selector_given None \<and>
   FitnessShaper_init (PyBool True) (PyBool True) (PyBool False) 0 (PyBool False) None
     = Inl AssertionError \<and>
   FitnessShaper_init (PyBool False) (PyInt 1) (PyBool False) 0 (PyBool False) None
     = Inr \<lparr>fs_w_decay = 0, fs_maximize = False, fs_centered_rank = False,
            fs_z_score = True, fs_norm_range = False\<rparr>"
proof -
  have h: "\<not> selector_given None" by (simp add: selector_given_def)
  show ?thesis
    using h
      FitnessShaper_init_exclusive [OF h, of "PyBool True" "PyBool True" "PyBool False" 0 "PyBool False"]
      FitnessShaper_init_exclusive [OF h, of "PyBool False" "PyInt 1" "PyBool False" 0 "PyBool False"]
    by (simp add: num_enabled_def)
qed

text \<open>
  C10. When \<open>fitness_trafo\<close> is one of the four selector names, the three flags are not
  read: construction succeeds whatever their values, and the transform that is on is the
  one the name says (none for \<open>raw\<close>).
\<close>

theorem FitnessShaper_init_selector:
  assumes "t \<in> set trafo_names"
  shows "FitnessShaper_init cr zs nr w m (Some t) =
           Inr \<lparr>fs_w_decay = w, fs_maximize = py_bool m,
                fs_centered_rank = (t = ''centered_rank''),
                fs_z_score = (t = ''z_score''),
                fs_norm_range = (t = ''norm_range'')\<rparr>"
  using assms
  by (auto simp: FitnessShaper_init_def trafo_names_def)

theorem FitnessShaper_init_selector_witness:
  "''raw'' \<in> set trafo_names \<and>
   FitnessShaper_init (PyBool True) (PyBool True) (PyBool False) 0 (PyBool False) (Some ''raw'')
     = Inr \<lparr>fs_w_decay = 0, fs_maximize = False, fs_centered_rank = False,
            fs_z_score = False, fs_norm_range = False\<rparr>"
proof -
  have h: "''raw'' \<in> set trafo_names" by (simp add: trafo_names_def)
  show ?thesis
    using h FitnessShaper_init_selector [OF h, of "PyBool True" "PyBool True" "PyBool False" 0 "PyBool False"]
    by simp
qed

section \<open>Annealed search: tell\<close>

lemma SimAnneal_tell_eq:
  assumes "argmin fitness = Inr i" "population \<noteq> []"
    and "bcast_ok (length (take_clamped population i)) (length (current_solution state))"
  shows "SimAnneal_tell rng key population fitness state params =
     Inr (state\<lparr>current_solution :=
                 bcast (\<lambda>a b. if fitness ! i - current_fitness state < 0 \<or>
                                 jax_uniform0 rng key
                                   < exp (- (fitness ! i - current_fitness state)
                                          / (boltzmann_constant params * temperature state))
                               then a else b)
                   (take_clamped population i) (current_solution state),
               current_fitness :=
                 (if fitness ! i - current_fitness state < 0 \<or>
                     jax_uniform0 rng key
                       < exp (- (fitness ! i - current_fitness state)
                              / (boltzmann_constant params * temperature state))
                  then fitness ! i else current_fitness state),
               sa_std := max (sa_std state * sa_std_decay params) (sa_std_limit params),
               temperature := max (temperature state * temperature_decay params)
                                (temperature_limit params)\<rparr>)"
  unfolding SimAnneal_tell_def bind_err_def Let_def clip_min_def
  by (simp only: assms sum.case if_True if_False simp_thms)

lemma SimAnneal_tell_Inr_D:
  assumes "SimAnneal_tell rng key population fitness state params = Inr state'"
  shows "sa_std state' = max (sa_std state * sa_std_decay params) (sa_std_limit params) \<and>
         temperature state' = max (temperature state * temperature_decay params)
                                (temperature_limit params)"
  using assms
  by (auto simp: SimAnneal_tell_def bind_err_def Let_def clip_min_def
           split: sum.splits if_splits)

lemma bcast_select:
  "length xs = length ys \<Longrightarrow> bcast (\<lambda>a b. if c then a else b) xs ys = (if c then xs else ys)"
  by (auto simp: bcast_def intro: nth_equalityI)

lemma well_shaped_tell:
  assumes "well_shaped population fitness state" "argmin fitness = Inr i" "i < length fitness"
  shows "population \<noteq> []" "take_clamped population i = population ! i"
    "length (population ! i) = length (current_solution state)"
  using assms by (auto simp: well_shaped_def take_clamped_def list_all_length)

text \<open>
  C6. Every state \<open>_tell\<close> returns has \<open>std\<close> and \<open>temperature\<close> decayed and floored:
  \<open>std' = max (std * std_decay) std_limit\<close> and likewise for the temperature, so both
  are at least their limits, whether or not the acceptance fired; and on well-shaped
  inputs \<open>_tell\<close> returns a state.
\<close>

theorem SimAnneal_tell_decay:
  "(\<forall>state'. SimAnneal_tell rng key population fitness state params = Inr state' \<longrightarrow>
      sa_std state' = max (sa_std state * sa_std_decay params) (sa_std_limit params) \<and>
      temperature state' = max (temperature state * temperature_decay params)
                             (temperature_limit params) \<and>
      sa_std_limit params \<le> sa_std state' \<and> temperature_limit params \<le> temperature state') \<and>
   (well_shaped population fitness state \<longrightarrow>
      (\<exists>state'. SimAnneal_tell rng key population fitness state params = Inr state'))"
proof (intro conjI allI impI)
  fix state' assume a: "SimAnneal_tell rng key population fitness state params = Inr state'"
  note d = SimAnneal_tell_Inr_D [OF a]
  show "sa_std state' = max (sa_std state * sa_std_decay params) (sa_std_limit params)"
    using d by simp
  show "temperature state' = max (temperature state * temperature_decay params)
                             (temperature_limit params)" using d by simp
  show "sa_std_limit params \<le> sa_std state'" using d by simp
  show "temperature_limit params \<le> temperature state'" using d by simp
next
  assume w: "well_shaped population fitness state"
  then have "fitness \<noteq> []" by (simp add: well_shaped_def)
  then obtain i where i: "argmin fitness = Inr i" "i < length fitness"
    using argmin_first_least by blast
  note s = well_shaped_tell [OF w i]
  show "\<exists>state'. SimAnneal_tell rng key population fitness state params = Inr state'"
    using SimAnneal_tell_eq [OF i(1) s(1), of state rng key params] s
    by (simp add: bcast_ok_def)
qed

text \<open>
  C1. On well-shaped inputs \<open>_tell\<close> takes the first member of least fitness as the
  generation's best, sets \<open>delta\<close> to that least fitness minus the current fitness, and
  (where the divisor \<open>boltzmann_constant * temperature\<close> is not zero) replaces the current
  solution and fitness by that member and its fitness exactly when \<open>delta < 0\<close> or the
  uniform draw is below \<open>exp(-delta / (boltzmann_constant * temperature))\<close>, and keeps
  them otherwise. When \<open>delta < 0\<close> the replacement happens for every generator and key.
\<close>

theorem SimAnneal_tell_metropolis:
  assumes "well_shaped population fitness state"
  shows "\<exists>i<length fitness.
      fitness ! i = Min (set fitness) \<and> (\<forall>j<i. fitness ! j \<noteq> Min (set fitness)) \<and>
      (boltzmann_constant params * temperature state \<noteq> 0 \<longrightarrow>
         SimAnneal_tell rng key population fitness state params =
           Inr (if Min (set fitness) - current_fitness state < 0 \<or>
                   jax_uniform0 rng key
                     < exp (- (Min (set fitness) - current_fitness state)
                            / (boltzmann_constant params * temperature state))
                then state\<lparr>current_solution := population ! i,
                           current_fitness := fitness ! i,
                           sa_std := max (sa_std state * sa_std_decay params) (sa_std_limit params),
                           temperature := max (temperature state * temperature_decay params)
                                            (temperature_limit params)\<rparr>
                else state\<lparr>sa_std := max (sa_std state * sa_std_decay params) (sa_std_limit params),
                           temperature := max (temperature state * temperature_decay params)
                                            (temperature_limit params)\<rparr>)) \<and>
      (Min (set fitness) - current_fitness state < 0 \<longrightarrow>
         (\<forall>(rng' :: 'k prng) key'.
            SimAnneal_tell rng' key' population fitness state params =
              Inr (state\<lparr>current_solution := population ! i,
                         current_fitness := Min (set fitness),
                         sa_std := max (sa_std state * sa_std_decay params) (sa_std_limit params),
                         temperature := max (temperature state * temperature_decay params)
                                          (temperature_limit params)\<rparr>)))"
proof -
  from assms have ne: "fitness \<noteq> []" by (simp add: well_shaped_def)
  then obtain i where i: "argmin fitness = Inr i" "i < length fitness"
    and least: "\<forall>j<length fitness. fitness ! i \<le> fitness ! j"
    and first: "\<forall>j<i. fitness ! i < fitness ! j"
    using argmin_first_least by blast
  have m: "fitness ! i = Min (set fitness)" using least_is_Min [OF i(2) least] .
  note s = well_shaped_tell [OF assms i]
  have ok: "bcast_ok (length (take_clamped population i)) (length (current_solution state))"
    using s by (simp add: bcast_ok_def)
  have eq: "SimAnneal_tell r k population fitness state params =
     Inr (state\<lparr>current_solution :=
                   (if Min (set fitness) - current_fitness state < 0 \<or>
                                 jax_uniform0 r k
                                   < exp (- (Min (set fitness) - current_fitness state)
                                          / (boltzmann_constant params * temperature state))
                               then population ! i else current_solution state),
               current_fitness :=
                 (if Min (set fitness) - current_fitness state < 0 \<or>
                     jax_uniform0 r k
                       < exp (- (Min (set fitness) - current_fitness state)
                              / (boltzmann_constant params * temperature state))
                  then fitness ! i else current_fitness state),
               sa_std := max (sa_std state * sa_std_decay params) (sa_std_limit params),
               temperature := max (temperature state * temperature_decay params)
                                (temperature_limit params)\<rparr>)" for r :: "'r prng" and k
    unfolding SimAnneal_tell_eq [OF i(1) s(1) ok]
    using s by (simp add: bcast_select m)
  show ?thesis
  proof (intro exI [of _ i] conjI impI allI)
    show "i < length fitness" by fact
    show "fitness ! i = Min (set fitness)" by fact
    show "fitness ! j \<noteq> Min (set fitness)" if "j < i" for j
      using first that m by force
    show "SimAnneal_tell rng key population fitness state params =
           Inr (if Min (set fitness) - current_fitness state < 0 \<or>
                   jax_uniform0 rng key
                     < exp (- (Min (set fitness) - current_fitness state)
                            / (boltzmann_constant params * temperature state))
                then state\<lparr>current_solution := population ! i,
                           current_fitness := fitness ! i,
                           sa_std := max (sa_std state * sa_std_decay params) (sa_std_limit params),
                           temperature := max (temperature state * temperature_decay params)
                                            (temperature_limit params)\<rparr>
                else state\<lparr>sa_std := max (sa_std state * sa_std_decay params) (sa_std_limit params),
                           temperature := max (temperature state * temperature_decay params)
                                            (temperature_limit params)\<rparr>)"
      unfolding eq by simp
    show "SimAnneal_tell rng' key' population fitness state params =
              Inr (state\<lparr>current_solution := population ! i,
                         current_fitness := Min (set fitness),
                         sa_std := max (sa_std state * sa_std_decay params) (sa_std_limit params),
                         temperature := max (temperature state * temperature_decay params)
                                          (temperature_limit params)\<rparr>)"
      if "Min (set fitness) - current_fitness state < 0" for rng' :: "'k prng" and key'
      unfolding eq using that m by simp
  qed
qed

lemma well_shaped0: "well_shaped [[1, 2], [3, 4]] [7, 5] sa_state0"
  by (simp add: well_shaped_def sa_state0_def)

theorem SimAnneal_tell_metropolis_witness:
  "well_shaped [[1, 2], [3, 4]] [7, 5] sa_state0 \<and>
   SimAnneal_tell rng0 0 [[1, 2], [3, 4]] [7, 5] sa_state0 sa_params0 =
     Inr (sa_state0\<lparr>current_solution := [3, 4], current_fitness := 5,
                     sa_std := 1 / 2, temperature := 1 / 2\<rparr>)"
proof -
  have h: "well_shaped [[1, 2], [3, 4]] [7, 5] sa_state0" by (rule well_shaped0)
  have M: "Min (set [7, 5 :: real]) = 5" by simp
  from SimAnneal_tell_metropolis [OF h, of sa_params0 rng0 0]
  obtain i where i: "i < length [7, 5 :: real]" "[7, 5 :: real] ! i = Min (set [7, 5])"
    and acc: "Min (set [7, 5]) - current_fitness sa_state0 < 0 \<longrightarrow>
         (\<forall>(rng' :: nat prng) key'.
            SimAnneal_tell rng' key' [[1, 2], [3, 4]] [7, 5] sa_state0 sa_params0 =
              Inr (sa_state0\<lparr>current_solution := [[1, 2], [3, 4]] ! i,
                         current_fitness := Min (set [7, 5]),
                         sa_std := max (sa_std sa_state0 * sa_std_decay sa_params0) (sa_std_limit sa_params0),
                         temperature := max (temperature sa_state0 * temperature_decay sa_params0)
                                          (temperature_limit sa_params0)\<rparr>))"
    by blast
  from i have i1: "i = 1" unfolding M by (cases i) auto
  have "Min (set [7, 5]) - current_fitness sa_state0 < 0" unfolding M by (simp add: sa_state0_def)
  with acc have "SimAnneal_tell rng0 0 [[1, 2], [3, 4]] [7, 5] sa_state0 sa_params0 =
              Inr (sa_state0\<lparr>current_solution := [[1, 2], [3, 4]] ! i,
                         current_fitness := Min (set [7, 5]),
                         sa_std := max (sa_std sa_state0 * sa_std_decay sa_params0) (sa_std_limit sa_params0),
                         temperature := max (temperature sa_state0 * temperature_decay sa_params0)
                                          (temperature_limit sa_params0)\<rparr>)" by blast
  then show ?thesis using h unfolding M i1 by (simp add: sa_state0_def sa_params0_def)
qed

theorem SimAnneal_tell_decay_witness:
  "well_shaped [[1, 2], [3, 4]] [7, 5] sa_state0 \<and>
   (\<exists>state'. SimAnneal_tell rng0 0 [[1, 2], [3, 4]] [7, 5] sa_state0 sa_params0 = Inr state' \<and>
      sa_std state' = 1 / 2 \<and> temperature state' = 1 / 2)"
proof -
  have h: "well_shaped [[1, 2], [3, 4]] [7, 5] sa_state0" by (rule well_shaped0)
  from SimAnneal_tell_decay [of rng0 0 "[[1, 2], [3, 4]]" "[7, 5]" sa_state0 sa_params0] h
  obtain state' where s: "SimAnneal_tell rng0 0 [[1, 2], [3, 4]] [7, 5] sa_state0 sa_params0 = Inr state'"
    by blast
  with SimAnneal_tell_decay [of rng0 0 "[[1, 2], [3, 4]]" "[7, 5]" sa_state0 sa_params0]
  have "sa_std state' = max (sa_std sa_state0 * sa_std_decay sa_params0) (sa_std_limit sa_params0)"
    "temperature state' = max (temperature sa_state0 * temperature_decay sa_params0)
                             (temperature_limit sa_params0)"
    by blast+
  then have "sa_std state' = 1 / 2 \<and> temperature state' = 1 / 2"
    by (simp add: sa_state0_def sa_params0_def)
  with s h show ?thesis by blast
qed

section \<open>Elitist genetic search: tell\<close>

text \<open>
  C7. \<open>_tell\<close> of the genetic search stores the given population and fitness unchanged,
  sets \<open>std\<close> to \<open>max (std * std_decay) std_limit\<close> and leaves every other field; the
  fitness values reach nothing but the \<open>fitness\<close> field.
\<close>

theorem SimpleGA_tell_stores:
  "SimpleGA_tell key population fitness state params =
     state\<lparr>ga_population := population, ga_fitness := fitness,
           ga_std := max (ga_std state * ga_std_decay params) (ga_std_limit params)\<rparr> \<and>
   SimpleGA_tell key population fitness state params =
     (SimpleGA_tell key population fitness' state params)\<lparr>ga_fitness := fitness\<rparr>"
  by (simp add: SimpleGA_tell_def clip_min_def)

theorem SimpleGA_tell_stores_witness:
  "SimpleGA_tell (0 :: nat) [[1, 0], [0, 2]] [1, 4] ga_state0 ga_params0 =
     ga_state0\<lparr>ga_population := [[1, 0], [0, 2]], ga_fitness := [1, 4], ga_std := 1 / 2\<rparr>"
  using SimpleGA_tell_stores [of "0 :: nat" "[[1, 0], [0, 2]]" "[1, 4]" ga_state0 ga_params0]
  by (simp add: ga_state0_def ga_params0_def)

section \<open>Ask leaves the state alone\<close>

lemma length_SimpleGA_sorted: "length (SimpleGA_sorted state) = length (ga_fitness state)"
  by (simp add: SimpleGA_sorted_def argsort_def)

lemma length_SimpleGA_p: "length (SimpleGA_p self) = ga_population_size self"
  by (simp add: SimpleGA_p_def)

lemma jax_choice_returns:
  assumes "length a = n" "length p = n"
  shows "jax_choice rng key a n p = Inr (map (\<lambda>i. a ! i) (choice_indices rng key n p))"
  using assms by (auto simp: jax_choice_def choice_indices_def)

lemma SimpleGA_parents_returns:
  assumes "length (ga_population state) = ga_population_size self"
    and "length (ga_fitness state) = ga_population_size self"
  shows "SimpleGA_parents rng self key state =
     Inr (map (\<lambda>i. SimpleGA_sorted state ! i)
            (choice_indices rng (jax_split rng key 4 ! 2) (ga_population_size self) (SimpleGA_p self)),
          map (\<lambda>i. SimpleGA_sorted state ! i)
            (choice_indices rng (jax_split rng key 4 ! 3) (ga_population_size self) (SimpleGA_p self)))"
proof -
  have "\<not> (ga_population state = [] \<and> ga_fitness state \<noteq> [])" using assms by auto
  then show ?thesis
    unfolding SimpleGA_parents_def Let_def
    by (simp add: jax_choice_returns length_SimpleGA_sorted length_SimpleGA_p assms bind_err_def)
qed

lemma SimpleGA_ask_Inr_D:
  "SimpleGA_ask rng self key state params = Inr (pop, state') \<Longrightarrow> state' = state"
  by (auto simp: SimpleGA_ask_def bind_err_def Let_def split: sum.splits)

lemma SimpleGA_ask_returns:
  assumes "length (ga_population state) = ga_population_size self"
    and "length (ga_fitness state) = ga_population_size self"
  shows "\<exists>pop. SimpleGA_ask rng self key state params = Inr (pop, state)"
  by (simp add: SimpleGA_ask_def SimpleGA_crossed_def SimpleGA_parents_returns [OF assms]
      bind_err_def Let_def)

text \<open>
  C9. The state \<open>_ask\<close> returns, for the annealed search and for the genetic search, is
  the state it was given, whatever the generator and the key; and on well-shaped states
  \<open>_ask\<close> does return a population together with that state.
\<close>

theorem ask_state_unchanged:
  "(\<forall>pop state'. SimAnneal_ask rng sa key sa_state sa_params = Inr (pop, state')
       \<longrightarrow> state' = sa_state) \<and>
   (\<forall>pop state'. SimpleGA_ask rng ga key ga_state ga_params = Inr (pop, state')
       \<longrightarrow> state' = ga_state) \<and>
   (bcast_ok (length (current_solution sa_state)) (sa_num_dims sa) \<longrightarrow>
      (\<exists>pop. SimAnneal_ask rng sa key sa_state sa_params = Inr (pop, sa_state))) \<and>
   (length (ga_population ga_state) = ga_population_size ga \<and>
    length (ga_fitness ga_state) = ga_population_size ga \<longrightarrow>
      (\<exists>pop. SimpleGA_ask rng ga key ga_state ga_params = Inr (pop, ga_state)))"
proof (intro conjI allI impI)
  fix pop state'
  assume "SimAnneal_ask rng sa key sa_state sa_params = Inr (pop, state')"
  then show "state' = sa_state"
    by (auto simp: SimAnneal_ask_def Let_def split: if_splits)
next
  fix pop state'
  assume "SimpleGA_ask rng ga key ga_state ga_params = Inr (pop, state')"
  then show "state' = ga_state"
    by (rule SimpleGA_ask_Inr_D)
next
  assume "bcast_ok (length (current_solution sa_state)) (sa_num_dims sa)"
  then show "\<exists>pop. SimAnneal_ask rng sa key sa_state sa_params = Inr (pop, sa_state)"
    by (simp add: SimAnneal_ask_def Let_def)
next
  assume "length (ga_population ga_state) = ga_population_size ga \<and>
    length (ga_fitness ga_state) = ga_population_size ga"
  then show "\<exists>pop. SimpleGA_ask rng ga key ga_state ga_params = Inr (pop, ga_state)"
    by (simp add: SimpleGA_ask_returns)
qed

theorem ask_state_unchanged_witness:
  "bcast_ok (length (current_solution sa_state0)) (sa_num_dims sa0) \<and>
   length (ga_population ga_state0) = ga_population_size ga0 \<and>
   length (ga_fitness ga_state0) = ga_population_size ga0 \<and>
   (\<exists>pop. SimAnneal_ask rng0 sa0 0 sa_state0 sa_params0 = Inr (pop, sa_state0)) \<and>
   (\<exists>pop. SimpleGA_ask rng0 ga0 0 ga_state0 ga_params0 = Inr (pop, ga_state0))"
proof -
  have h1: "bcast_ok (length (current_solution sa_state0)) (sa_num_dims sa0)"
    by (simp add: bcast_ok_def sa_state0_def sa0_def)
  have h2: "length (ga_population ga_state0) = ga_population_size ga0 \<and>
   length (ga_fitness ga_state0) = ga_population_size ga0"
    by (simp add: ga_state0_def ga0_def SimpleGA_init_def)
  show ?thesis
    using h1 h2 ask_state_unchanged [of rng0 sa0 0 sa_state0 sa_params0 ga0 ga_state0 ga_params0]
    by simp
qed

section \<open>Fitness features\<close>

lemma norm_diff_best_raises:
  "norm_diff_best fitness best_fitness = (if fitness = [] then Inl ValueError else Inl TypeError)"
  by (simp add: norm_diff_best_def Let_def)

text \<open>
  C8. With \<open>diff_best\<close> on, \<open>FitnessFeatures.apply\<close> returns no feature matrix: the
  best-difference column is never built, because \<open>norm_diff_best\<close> raises on every input.
  (With \<open>diff_best\<close> off the matrix has the indicator column first and the enabled
  columns in the order centered rank, z-score, range, L2; see
  \<open>FitnessFeatures_apply_columns\<close> below.)
\<close>

theorem FitnessFeatures_apply_diff_best_raises:
  assumes "ff_diff_best self"
  shows "\<exists>e. FitnessFeatures_apply lib self x fitness best_fitness = Inl e"
  using assms
  by (auto simp: FitnessFeatures_apply_def bind_err_def Let_def norm_diff_best_raises
           split: sum.splits)

theorem FitnessFeatures_apply_diff_best_raises_witness:
  "ff_diff_best features0 \<and>
   FitnessFeatures_apply lib0 features0 [[0], [0]] [1, 2] 0 = Inl TypeError"
proof -
  have h: "ff_diff_best features0" by (simp add: features0_def)
  have "FitnessFeatures_apply lib0 features0 [[0], [0]] [1, 2] 0 = Inl TypeError"
    by (simp add: FitnessFeatures_apply_def features0_def bind_err_def norm_diff_best_raises)
  with h FitnessFeatures_apply_diff_best_raises [OF h, of lib0 "[[0], [0]]" "[1, 2]" 0] show ?thesis by simp
qed

lemma concat_col_upt:
  assumes "length col = n"
  shows "concat_col (map g [0..<n]) col = Inr (map (\<lambda>i. g i @ [col ! i]) [0..<n])"
  using assms by (auto simp: concat_col_def intro!: nth_equalityI)

lemma FitnessFeatures_apply_columns:
  assumes "\<not> ff_diff_best self"
    and "fitness' = (if ff_maximize self then map (\<lambda>f. - 1 * f) fitness else fitness)"
    and "ff_centered_rank self \<Longrightarrow> length (centered_rank lib fitness') = length fitness"
    and "ff_z_score self \<Longrightarrow> length (standardize lib fitness') = length fitness"
    and "ff_norm_range self \<Longrightarrow> length (normalize lib fitness' (- 1) 1) = length fitness"
    and "ff_w_decay self \<noteq> 0 \<Longrightarrow> length (l2_norm_sq lib x) = length fitness"
  shows "FitnessFeatures_apply lib self x fitness best_fitness =
     Inr (map (\<lambda>i. [of_bool (fitness' ! i < best_fitness)]
                 @ (if ff_centered_rank self then [centered_rank lib fitness' ! i] else [])
                 @ (if ff_z_score self then [standardize lib fitness' ! i] else [])
                 @ (if ff_norm_range self then [normalize lib fitness' (- 1) 1 ! i] else [])
                 @ (if ff_w_decay self \<noteq> 0 then [l2_norm_sq lib x ! i] else []))
            [0..<length fitness])"
proof -
  have n: "length fitness' = length fitness" using assms(2) by simp
  have start: "map (\<lambda>f. [of_bool (f < best_fitness) * 1]) fitness'
     = map (\<lambda>i. [of_bool (fitness' ! i < best_fitness) :: real]) [0..<length fitness]"
    using n by (auto intro!: nth_equalityI)
  show ?thesis
    unfolding FitnessFeatures_apply_def Let_def assms(2) [symmetric] start
    using assms(1,3-6)
    by (simp add: bind_err_def concat_col_upt)
qed

section \<open>Order of the shaping steps\<close>

lemma FitnessShaper_init_at_most_one:
  assumes "FitnessShaper_init cr zs nr w m t = Inr self"
  shows "length (enabled_trafos self) \<le> 1"
  using assms
  by (auto simp: FitnessShaper_init_def enabled_trafos_def Let_def split: if_splits)

lemma compute_l2_norm_add:
  assumes "length population = length fitness"
  shows "bcast_op (+) fitness (map (\<lambda>l. w * l) (compute_l2_norm population)) =
         Inr (map2 (\<lambda>f x. f + w * (sum_list (map (\<lambda>v. v\<^sup>2) x) / real (length x)))
                fitness population)"
  using assms
  by (auto simp: bcast_op_def bcast_ok_def bcast_def compute_l2_norm_def nanmean_def
      power2_eq_square intro!: nth_equalityI)

text \<open>
  C3. For a shaper the constructor returned and a population aligned with the fitness,
  \<open>apply\<close> is the composition, in this order, of: negation when \<open>maximize\<close> is set; adding
  \<open>w_decay\<close> times the mean of the squared parameters of each member when \<open>w_decay > 0\<close>;
  and the one enabled transform among centered rank, z-score and range normalisation,
  if any.
\<close>

theorem FitnessShaper_apply_order:
  assumes "FitnessShaper_init cr zs nr w m t = Inr self"
    and "length population = length fitness"
  shows "FitnessShaper_apply self population fitness =
           spec_transform self (spec_w_decay self population (spec_negate self fitness))"
proof -
  have neg: "(if fs_maximize self then map (\<lambda>f. - 1 * f) fitness else fitness)
               = spec_negate self fitness"
    by (simp add: spec_negate_def)
  have len: "length population = length (spec_negate self fitness)"
    using assms(2) by (simp add: spec_negate_def)
  have dec: "(if fs_w_decay self > 0
               then bcast_op (+) (spec_negate self fitness)
                      (map (\<lambda>l. fs_w_decay self * l) (compute_l2_norm population))
               else Inr (spec_negate self fitness))
             = Inr (spec_w_decay self population (spec_negate self fitness))"
    by (simp add: spec_w_decay_def compute_l2_norm_add [OF len])
  have one: "length (enabled_trafos self) \<le> 1"
    using assms(1) by (rule FitnessShaper_init_at_most_one)
  have tr: "(let f = (if fs_centered_rank self then centered_rank_trafo g else g);
                 f = (if fs_z_score self then z_score_trafo f else f)
             in if fs_norm_range self then range_norm_trafo f (- 1) 1 else Inr f)
            = spec_transform self g" for g
    using one by (auto simp: spec_transform_def enabled_trafos_def Let_def)
  show ?thesis
    unfolding FitnessShaper_apply_def Let_def neg dec
    using tr by (simp add: Let_def)
qed

theorem FitnessShaper_apply_order_witness:
  "FitnessShaper_init (PyBool False) (PyBool False) (PyBool True) (1 / 2) (PyBool True) None
     = Inr shaper0 \<and>
   length [[3, 1], [1, 1], [4, 0 :: real]] = length [- 5, - 1, - 8 :: real] \<and>
   FitnessShaper_apply shaper0 [[3, 1], [1, 1], [4, 0]] [5, 1, 8] =
     range_norm_trafo [- 5 / 2, - 1 / 2, - 4] (- 1) 1"
proof -
  have h: "FitnessShaper_init (PyBool False) (PyBool False) (PyBool True) (1 / 2) (PyBool True) None
     = Inr shaper0"
    by (simp add: FitnessShaper_init_def shaper0_def)
  have l: "length [[3, 1], [1, 1], [4, 0 :: real]] = length [5, 1, 8 :: real]" by simp
  have "spec_transform shaper0 (spec_w_decay shaper0 [[3, 1], [1, 1], [4, 0]]
          (spec_negate shaper0 [5, 1, 8])) = range_norm_trafo [- 5 / 2, - 1 / 2, - 4] (- 1) 1"
    by (simp add: spec_transform_def enabled_trafos_def spec_w_decay_def spec_negate_def
        shaper0_def power2_eq_square)
  with FitnessShaper_apply_order [OF h l] h show ?thesis by simp
qed

section \<open>Rank sorting and the centered-rank transform\<close>

lemma length_fold_update:
  "length (fold (\<lambda>(i, v) acc. acc[i := v]) ps base) = length base"
  by (induction ps arbitrary: base) auto

lemma fold_update_untouched:
  "i \<notin> fst ` set ps \<Longrightarrow> fold (\<lambda>(i, v) acc. acc[i := v]) ps base ! i = base ! i"
  by (induction ps arbitrary: base) auto

lemma fold_update_hit:
  assumes "distinct (map fst ps)" "(i, v) \<in> set ps" "i < length base"
  shows "fold (\<lambda>(i, v) acc. acc[i := v]) ps base ! i = v"
  using assms
proof (induction ps arbitrary: base)
  case Nil
  then show ?case by simp
next
  case (Cons p ps)
  show ?case
  proof (cases "p = (i, v)")
    case True
    then have "i \<notin> fst ` set ps" using Cons.prems(1) by auto
    then show ?thesis using True Cons.prems(3) by (simp add: fold_update_untouched)
  next
    case False
    have "distinct (map fst ps)" using Cons.prems(1) by simp
    moreover have "(i, v) \<in> set ps" using False Cons.prems(2) by auto
    moreover have "i < length (base[fst p := snd p])" using Cons.prems(3) by simp
    ultimately have "fold (\<lambda>(i, v) acc. acc[i := v]) ps (base[fst p := snd p]) ! i = v"
      by (rule Cons.IH)
    then show ?thesis by (cases p) simp
  qed
qed

lemma length_scatter_set: "length (scatter_set base ind vals) = length base"
  by (simp add: scatter_set_def length_fold_update)

lemma scatter_set_nth:
  assumes "distinct ind" "length vals = length ind" "j < length ind" "ind ! j < length base"
  shows "scatter_set base ind vals ! (ind ! j) = vals ! j"
proof -
  have "distinct (map fst (zip ind vals))" using assms(1,2) by simp
  moreover have "(ind ! j, vals ! j) \<in> set (zip ind vals)"
    using assms(2,3) by (auto simp: set_zip)
  ultimately show ?thesis
    unfolding scatter_set_def using assms(4) by (rule fold_update_hit)
qed

lemma argsort_perm:
  "length (argsort xs) = length xs" "distinct (argsort xs)" "set (argsort xs) = {0..<length xs}"
  by (simp_all add: argsort_def)

lemma map_nth_argsort: "map (\<lambda>i. xs ! i) (argsort xs) = sort xs"
proof -
  have "mset (map (\<lambda>i. xs ! i) (argsort xs)) = mset (map (\<lambda>i. xs ! i) [0..<length xs])"
    by (simp add: argsort_def)
  then have "mset (map (\<lambda>i. xs ! i) (argsort xs)) = mset xs"
    by (simp only: map_nth)
  moreover have "sorted (map (\<lambda>i. xs ! i) (argsort xs))"
    by (simp add: argsort_def)
  ultimately have "sort xs = map (\<lambda>i. xs ! i) (argsort xs)"
    by (rule properties_for_sort)
  then show ?thesis by simp
qed

lemma length_ranksort: "length (ranksort fitness) = length fitness"
  by (simp add: ranksort_def Let_def length_scatter_set argsort_perm)

lemma ranksort_argsort:
  assumes "j < length fitness"
  shows "ranksort fitness ! (argsort fitness ! j) = j"
proof -
  have "argsort fitness ! j \<in> set (argsort fitness)"
    using assms by (simp add: argsort_perm(1))
  then have "argsort fitness ! j < length (argsort fitness)"
    by (simp add: argsort_perm)
  then have "scatter_set (argsort fitness) (argsort fitness) [0..<length fitness]
               ! (argsort fitness ! j) = [0..<length fitness] ! j"
    using assms by (intro scatter_set_nth) (simp_all add: argsort_perm)
  then show ?thesis using assms by (simp add: ranksort_def Let_def)
qed

lemma ranksort_inverse:
  assumes "i < length fitness"
  shows "ranksort fitness ! i < length fitness \<and> argsort fitness ! (ranksort fitness ! i) = i"
proof -
  have "i \<in> set (argsort fitness)" using assms by (simp add: argsort_perm)
  then obtain j where j: "j < length fitness" "argsort fitness ! j = i"
    by (auto simp: in_set_conv_nth argsort_perm(1))
  then have "ranksort fitness ! i = j" using ranksort_argsort by blast
  then show ?thesis using j by simp
qed

lemma ranksort_position:
  assumes "i < length fitness"
  shows "sort fitness ! (ranksort fitness ! i) = fitness ! i"
proof -
  note r = ranksort_inverse [OF assms]
  have "sort fitness ! (ranksort fitness ! i)
          = map (\<lambda>i. fitness ! i) (argsort fitness) ! (ranksort fitness ! i)"
    by (simp add: map_nth_argsort)
  also have "\<dots> = fitness ! (argsort fitness ! (ranksort fitness ! i))"
    using r by (simp add: argsort_perm(1))
  finally show ?thesis using r by simp
qed

lemma mset_ranksort: "mset (ranksort fitness) = mset [0..<length fitness]"
proof -
  have "map (\<lambda>i. ranksort fitness ! i) (argsort fitness) = [0..<length fitness]"
    by (rule nth_equalityI) (simp_all add: argsort_perm(1) ranksort_argsort)
  then have "mset [0..<length fitness] = image_mset (\<lambda>i. ranksort fitness ! i) (mset (argsort fitness))"
    by (metis mset_map)
  also have "mset (argsort fitness) = mset [0..<length fitness]"
    by (simp add: argsort_def)
  also have "image_mset (\<lambda>i. ranksort fitness ! i) (mset [0..<length fitness])
               = mset (map (\<lambda>i. ranksort fitness ! i) [0..<length fitness])"
    by simp
  also have "map (\<lambda>i. ranksort fitness ! i) [0..<length fitness] = ranksort fitness"
    using map_nth [of "ranksort fitness"] by (simp add: length_ranksort)
  finally show ?thesis by simp
qed

lemma sorted_nth0_Min:
  assumes "sorted (xs :: real list)" "xs \<noteq> []"
  shows "xs ! 0 = Min (set xs)"
proof -
  have "\<forall>y\<in>set xs. xs ! 0 \<le> y"
    using assms by (cases xs) auto
  moreover have "xs ! 0 \<in> set xs" using assms by simp
  ultimately show ?thesis by (intro Min_eqI [symmetric]) auto
qed

lemma sorted_last_Max:
  assumes "sorted (xs :: real list)" "xs \<noteq> []"
  shows "xs ! (length xs - 1) = Max (set xs)"
proof -
  have "\<forall>y\<in>set xs. y \<le> xs ! (length xs - 1)"
    using assms by (auto simp: in_set_conv_nth intro!: sorted_nth_mono)
  moreover have "xs ! (length xs - 1) \<in> set xs" using assms by simp
  ultimately show ?thesis by (intro Max_eqI [symmetric]) auto
qed

lemma ranksort_Min:
  assumes "distinct fitness" "i < length fitness" "fitness ! i = Min (set fitness)"
  shows "ranksort fitness ! i = 0"
proof -
  have ne: "sort fitness \<noteq> []" using assms(2) by (metis length_sort list.size(3) not_less0)
  have "sort fitness ! 0 = Min (set fitness)"
    using sorted_nth0_Min [OF sorted_sort ne] by simp
  then have "sort fitness ! (ranksort fitness ! i) = sort fitness ! 0"
    using ranksort_position [OF assms(2)] assms(3) by simp
  moreover have "distinct (sort fitness)" using assms(1) by simp
  moreover have "ranksort fitness ! i < length (sort fitness)"
    using ranksort_inverse [OF assms(2)] by simp
  moreover have "0 < length (sort fitness)" using assms(2) by auto
  ultimately show ?thesis by (simp add: nth_eq_iff_index_eq)
qed

lemma ranksort_Max:
  assumes "distinct fitness" "i < length fitness" "fitness ! i = Max (set fitness)"
  shows "ranksort fitness ! i = length fitness - 1"
proof -
  have ne: "sort fitness \<noteq> []" using assms(2) by (metis length_sort list.size(3) not_less0)
  have "sort fitness ! (length fitness - 1) = Max (set fitness)"
    using sorted_last_Max [OF sorted_sort ne] by simp
  then have "sort fitness ! (ranksort fitness ! i) = sort fitness ! (length fitness - 1)"
    using ranksort_position [OF assms(2)] assms(3) by simp
  moreover have "distinct (sort fitness)" using assms(1) by simp
  moreover have "ranksort fitness ! i < length (sort fitness)"
    using ranksort_inverse [OF assms(2)] by simp
  moreover have "length fitness - 1 < length (sort fitness)" using assms(2) by auto
  ultimately show ?thesis by (simp add: nth_eq_iff_index_eq)
qed

lemma centered_rank_trafo_nth:
  assumes "i < length fitness"
  shows "centered_rank_trafo fitness ! i
           = real (ranksort fitness ! i) / (real (length fitness) - 1) - 1 / 2"
proof -
  have "real_of_int (int (length fitness) - 1) = real (length fitness) - 1" by simp
  then show ?thesis
    using assms by (simp add: centered_rank_trafo_def length_ranksort)
qed

text \<open>
  C4. For a fitness vector of at least two pairwise distinct values, the centered-rank
  transform maps member \<open>i\<close> to \<open>rank / (N - 1) - 1/2\<close>, where \<open>rank\<close> is the position of
  its fitness in the ascending sorted vector; the ranks are a permutation of \<open>0, ..., N - 1\<close>,
  so the outputs are those numbers scaled into the interval from \<open>-1/2\<close> to \<open>1/2\<close>; the
  member of least fitness gets \<open>-1/2\<close> and the member of greatest fitness \<open>1/2\<close>.
\<close>

theorem centered_rank_trafo_ranks:
  assumes "distinct fitness" and "2 \<le> length fitness"
  shows "length (centered_rank_trafo fitness) = length fitness \<and>
         mset (ranksort fitness) = mset [0..<length fitness] \<and>
         mset (centered_rank_trafo fitness)
           = mset (map (\<lambda>r. real r / (real (length fitness) - 1) - 1 / 2) [0..<length fitness]) \<and>
         (\<forall>i<length fitness.
            sort fitness ! (ranksort fitness ! i) = fitness ! i \<and>
            centered_rank_trafo fitness ! i
              = real (ranksort fitness ! i) / (real (length fitness) - 1) - 1 / 2 \<and>
            - 1 / 2 \<le> centered_rank_trafo fitness ! i \<and>
            centered_rank_trafo fitness ! i \<le> 1 / 2 \<and>
            (fitness ! i = Min (set fitness) \<longrightarrow> centered_rank_trafo fitness ! i = - 1 / 2) \<and>
            (fitness ! i = Max (set fitness) \<longrightarrow> centered_rank_trafo fitness ! i = 1 / 2))"
proof (intro conjI allI impI)
  show "length (centered_rank_trafo fitness) = length fitness"
    by (simp add: centered_rank_trafo_def length_ranksort)
  show "mset (ranksort fitness) = mset [0..<length fitness]"
    by (rule mset_ranksort)
  have "mset (centered_rank_trafo fitness)
          = image_mset (\<lambda>r. real r / (real (length fitness) - 1) - 1 / 2) (mset (ranksort fitness))"
    by (simp add: centered_rank_trafo_def)
  then show "mset (centered_rank_trafo fitness)
           = mset (map (\<lambda>r. real r / (real (length fitness) - 1) - 1 / 2) [0..<length fitness])"
    by (simp add: mset_ranksort)
next
  fix i assume i: "i < length fitness"
  have pos: "0 < real (length fitness) - 1" using assms(2) by simp
  have r: "ranksort fitness ! i < length fitness" using ranksort_inverse [OF i] by simp
  show "sort fitness ! (ranksort fitness ! i) = fitness ! i"
    by (rule ranksort_position [OF i])
  show eq: "centered_rank_trafo fitness ! i
              = real (ranksort fitness ! i) / (real (length fitness) - 1) - 1 / 2"
    by (rule centered_rank_trafo_nth [OF i])
  have "0 \<le> real (ranksort fitness ! i) / (real (length fitness) - 1)"
    using pos by simp
  then show "- 1 / 2 \<le> centered_rank_trafo fitness ! i" unfolding eq by linarith
  have "real (ranksort fitness ! i) \<le> real (length fitness) - 1" using r by linarith
  then have "real (ranksort fitness ! i) / (real (length fitness) - 1) \<le> 1"
    using pos by (simp add: divide_le_eq)
  then show "centered_rank_trafo fitness ! i \<le> 1 / 2" unfolding eq by linarith
  show "centered_rank_trafo fitness ! i = - 1 / 2" if "fitness ! i = Min (set fitness)"
    unfolding eq using ranksort_Min [OF assms(1) i that] by simp
  show "centered_rank_trafo fitness ! i = 1 / 2" if "fitness ! i = Max (set fitness)"
  proof -
    have "real (ranksort fitness ! i) = real (length fitness) - 1"
      using ranksort_Max [OF assms(1) i that] assms(2) by (simp add: of_nat_diff)
    then show ?thesis unfolding eq using pos by simp
  qed
qed

lemma argsort0: "argsort [3, 1, 2] = [1, 2, 0]"
  by (simp add: argsort_def upt_rec numeral_3_eq_3)

lemma ranksort0: "ranksort [3, 1, 2] = [2, 0, 1]"
  by (simp add: ranksort_def argsort0 scatter_set_def upt_rec numeral_3_eq_3)

theorem centered_rank_trafo_ranks_witness:
  "distinct [3, 1, 2 :: real] \<and> 2 \<le> length [3, 1, 2 :: real] \<and>
   centered_rank_trafo [3, 1, 2] = [1 / 2, - 1 / 2, 0] \<and>
   mset (centered_rank_trafo [3, 1, 2]) = mset [- 1 / 2, 0, 1 / 2]"
proof -
  have h1: "distinct [3, 1, 2 :: real]" by simp
  have h2: "2 \<le> length [3, 1, 2 :: real]" by simp
  have v: "centered_rank_trafo [3, 1, 2] = [1 / 2, - 1 / 2, 0]"
    by (simp add: centered_rank_trafo_def ranksort0)
  have "mset (centered_rank_trafo [3, 1, 2 :: real])
           = mset (map (\<lambda>r. real r / (real (length [3, 1, 2 :: real]) - 1) - 1 / 2)
                    [0..<length [3, 1, 2 :: real]])"
    using centered_rank_trafo_ranks [OF h1 h2] by blast
  then have "mset (centered_rank_trafo [3, 1, 2]) = mset [- 1 / 2, 0, 1 / 2]"
    by (simp add: upt_rec numeral_3_eq_3)
  with h1 h2 v show ?thesis by blast
qed

section \<open>Elitist genetic search: ask\<close>

lemma length_cumsum_from: "length (cumsum_from acc xs) = length xs"
  by (induction xs arbitrary: acc) auto

lemma cumsum_from_nth:
  "i < length xs \<Longrightarrow> cumsum_from acc xs ! i = acc + sum_list (take (Suc i) xs)"
proof (induction xs arbitrary: acc i)
  case Nil
  then show ?case by simp
next
  case (Cons x xs)
  then show ?case by (cases i) (auto simp: add.assoc)
qed

lemma sum_mask: "sum_list (map (\<lambda>i. of_bool (i < k)) [0..<j]) = real (min j k)"
  by (induction j) (auto simp: min_def)

lemma cumsum_mask_nth:
  assumes "i < n"
  shows "cumsum (map (\<lambda>i. of_bool (i < k)) [0..<n]) ! i = real (min (Suc i) k)"
proof -
  have "take (Suc i) (map (\<lambda>i. of_bool (i < k) :: real) [0..<n])
          = map (\<lambda>i. of_bool (i < k)) [0..<Suc i]"
    using assms by (simp add: take_map min_def del: upt_Suc)
  then show ?thesis
    using assms by (simp add: cumsum_def cumsum_from_nth sum_mask del: upt_Suc)
qed

lemma takeWhile_bound:
  assumes "j < length xs" "\<not> P (xs ! j)"
  shows "length (takeWhile P xs) \<le> j"
proof (rule ccontr)
  assume "\<not> length (takeWhile P xs) \<le> j"
  then have l: "j < length (takeWhile P xs)" by simp
  then have "takeWhile P xs ! j \<in> set (takeWhile P xs)" by simp
  then have "P (takeWhile P xs ! j)" by (rule set_takeWhileD [THEN conjunct2])
  then show False using assms(2) l by (simp add: takeWhile_nth)
qed

lemma choice_indices_elite:
  assumes "uniform_range rng" "0 < num_elites self" "i < ga_population_size self"
  shows "choice_indices rng key (ga_population_size self) (SimpleGA_p self) ! i
           < min (num_elites self) (ga_population_size self)"
proof -
  define n where "n = ga_population_size self"
  define k where "k = num_elites self"
  define c where "c = cumsum (map (\<lambda>i. of_bool (i < k) :: real) [0..<n])"
  define m where "m = min n k"
  define u where "u = rand_uniform rng key [n] i"
  have n: "0 < n" "i < n" using assms(3) by (auto simp: n_def)
  have m: "0 < m" "m \<le> n" using n assms(2) by (auto simp: m_def k_def)
  have lc: "length c = n" by (simp add: c_def cumsum_def length_cumsum_from)
  have "c \<noteq> []" using lc n by auto
  then have "last c = c ! (n - 1)" using lc by (simp add: last_conv_nth)
  also have "\<dots> = real (min (Suc (n - 1)) k)"
    unfolding c_def using n by (intro cumsum_mask_nth) simp
  finally have last: "last c = real m" using n by (simp add: m_def)
  have "c ! (m - 1) = real (min (Suc (m - 1)) k)"
    unfolding c_def using m by (intro cumsum_mask_nth) simp
  then have cm: "c ! (m - 1) = real m" using m by (simp add: m_def)
  have "0 \<le> u" "u < 1" using assms(1) by (auto simp: uniform_range_def u_def)
  then have "real m * (1 - u) \<le> real m"
    by (simp add: mult_left_le)
  then have "\<not> c ! (m - 1) < last c * (1 - u)" unfolding cm last by simp
  moreover have "m - 1 < length c" using lc m by simp
  ultimately have "length (takeWhile (\<lambda>x. x < last c * (1 - u)) c) \<le> m - 1"
    by (rule takeWhile_bound [rotated])
  then have "searchsorted c (last c * (1 - u)) < m"
    using m by (simp add: searchsorted_def)
  moreover have "choice_indices rng key n (SimpleGA_p self) ! i = searchsorted c (last c * (1 - u))"
    using n by (simp add: choice_indices_def SimpleGA_p_def Let_def c_def u_def n_def k_def)
  ultimately show ?thesis by (simp add: n_def m_def k_def min.commute)
qed

lemma length_choice_indices: "length (choice_indices rng key n p) = n"
  by (simp add: choice_indices_def Let_def)

lemma crossover_rate_0:
  assumes "uniform_range rng" "length parent_1 = length parent_2"
  shows "crossover rng key parent_1 parent_2 0 = parent_1"
proof -
  have nonneg: "\<not> rand_uniform rng key [length parent_1] i < 0" for i
    using assms(1) by (simp add: uniform_range_def not_less)
  have "map (\<lambda>u. u < 0) (jax_uniform1 rng key (length parent_1))
          = replicate (length parent_1) False"
    by (auto simp: jax_uniform1_def nonneg intro!: nth_equalityI)
  then show ?thesis
    using assms(2) by (auto simp: crossover_def Let_def intro!: nth_equalityI)
qed

lemma SimpleGA_sorted_nth:
  assumes "length (ga_population state) = length (ga_fitness state)" "j < length (ga_fitness state)"
  shows "SimpleGA_sorted state ! j = ga_population state ! (argsort (ga_fitness state) ! j)"
    and "argsort (ga_fitness state) ! j < length (ga_population state)"
proof -
  have "argsort (ga_fitness state) ! j \<in> set (argsort (ga_fitness state))"
    using assms(2) by (simp add: argsort_perm(1))
  then show b: "argsort (ga_fitness state) ! j < length (ga_population state)"
    using assms(1) by (simp add: argsort_perm)
  then show "SimpleGA_sorted state ! j = ga_population state ! (argsort (ga_fitness state) ! j)"
    using assms(2) by (simp add: SimpleGA_sorted_def Let_def take_clamped_def argsort_perm(1))
qed

lemma argsort_ascending:
  assumes "j < length xs"
  shows "xs ! (argsort xs ! j) = sort xs ! j"
proof -
  have "sort xs ! j = map (\<lambda>i. xs ! i) (argsort xs) ! j" by (simp add: map_nth_argsort)
  then show ?thesis using assms by (simp add: argsort_perm(1))
qed

text \<open>
  C2. With uniform draws in the half-open unit interval, at least one elite, a
  well-shaped state and \<open>crossover_rate = 0\<close>: \<open>_ask\<close> draws two parent arrays; the offspring
  before mutation are the first parents exactly, and each returned child is its first
  parent plus \<open>std\<close> times a normal draw; every parent, first or second, is the member whose
  fitness stands at a position \<open>j < num_elites\<close> of the ascending sorted fitness, so no
  member outside the \<open>num_elites\<close> best is ever selected.
\<close>

theorem SimpleGA_ask_elite_parents:
  assumes "uniform_range rng" and "0 < num_elites self" and "ga_shaped self state"
    and "crossover_rate params = 0"
  shows "\<exists>parents_1 parents_2.
      SimpleGA_parents rng self key state = Inr (parents_1, parents_2) \<and>
      length parents_1 = ga_population_size self \<and>
      length parents_2 = ga_population_size self \<and>
      SimpleGA_crossed rng self key state params = Inr parents_1 \<and>
      SimpleGA_ask rng self key state params =
        Inr (map (\<lambda>i. map2 (\<lambda>s z. s + ga_std state * z) (parents_1 ! i)
                         (jax_normal1 rng
                            (jax_split rng (jax_split rng key 4 ! 1) (ga_population_size self) ! i)
                            (length (parents_1 ! i))))
               [0..<ga_population_size self], state) \<and>
      (\<forall>i<ga_population_size self.
         (\<exists>j. j < num_elites self \<and> j < ga_population_size self \<and>
              parents_1 ! i = ga_population state ! (argsort (ga_fitness state) ! j) \<and>
              ga_fitness state ! (argsort (ga_fitness state) ! j) = sort (ga_fitness state) ! j) \<and>
         (\<exists>j. j < num_elites self \<and> j < ga_population_size self \<and>
              parents_2 ! i = ga_population state ! (argsort (ga_fitness state) ! j) \<and>
              ga_fitness state ! (argsort (ga_fitness state) ! j) = sort (ga_fitness state) ! j))"
proof -
  define n where "n = ga_population_size self"
  define ix1 where "ix1 = choice_indices rng (jax_split rng key 4 ! 2) n (SimpleGA_p self)"
  define ix2 where "ix2 = choice_indices rng (jax_split rng key 4 ! 3) n (SimpleGA_p self)"
  define parents_1 where "parents_1 = map (\<lambda>i. SimpleGA_sorted state ! i) ix1"
  define parents_2 where "parents_2 = map (\<lambda>i. SimpleGA_sorted state ! i) ix2"
  have lp: "length (ga_population state) = n" and lf: "length (ga_fitness state) = n"
    and rows: "list_all (\<lambda>row. length row = ga_num_dims self) (ga_population state)"
    using assms(3) by (simp_all add: ga_shaped_def n_def)
  have par: "SimpleGA_parents rng self key state = Inr (parents_1, parents_2)"
    using SimpleGA_parents_returns [of state self rng key] lp lf
    by (simp add: parents_1_def parents_2_def ix1_def ix2_def n_def)
  have l1: "length parents_1 = n" and l2: "length parents_2 = n"
    by (simp_all add: parents_1_def parents_2_def ix1_def ix2_def length_choice_indices)
  have ix: "ix1 ! i < min (num_elites self) n" "ix2 ! i < min (num_elites self) n" if "i < n" for i
    using choice_indices_elite [OF assms(1,2), of i] that by (simp_all add: ix1_def ix2_def n_def)
  have el1: "\<exists>j. j < num_elites self \<and> j < n \<and>
              parents_1 ! i = ga_population state ! (argsort (ga_fitness state) ! j) \<and>
              ga_fitness state ! (argsort (ga_fitness state) ! j) = sort (ga_fitness state) ! j"
    if "i < n" for i
  proof (intro exI [of _ "ix1 ! i"] conjI)
    show "ix1 ! i < num_elites self" "ix1 ! i < n" using ix(1) [OF that] by simp_all
    then show "parents_1 ! i = ga_population state ! (argsort (ga_fitness state) ! (ix1 ! i))"
      using that by (simp add: parents_1_def ix1_def length_choice_indices SimpleGA_sorted_nth(1) lp lf)
    show "ga_fitness state ! (argsort (ga_fitness state) ! (ix1 ! i)) = sort (ga_fitness state) ! (ix1 ! i)"
      using \<open>ix1 ! i < n\<close> by (simp add: argsort_ascending lf)
  qed
  have el2: "\<exists>j. j < num_elites self \<and> j < n \<and>
              parents_2 ! i = ga_population state ! (argsort (ga_fitness state) ! j) \<and>
              ga_fitness state ! (argsort (ga_fitness state) ! j) = sort (ga_fitness state) ! j"
    if "i < n" for i
  proof (intro exI [of _ "ix2 ! i"] conjI)
    show "ix2 ! i < num_elites self" "ix2 ! i < n" using ix(2) [OF that] by simp_all
    then show "parents_2 ! i = ga_population state ! (argsort (ga_fitness state) ! (ix2 ! i))"
      using that by (simp add: parents_2_def ix2_def length_choice_indices SimpleGA_sorted_nth(1) lp lf)
    show "ga_fitness state ! (argsort (ga_fitness state) ! (ix2 ! i)) = sort (ga_fitness state) ! (ix2 ! i)"
      using \<open>ix2 ! i < n\<close> by (simp add: argsort_ascending lf)
  qed
  have dims: "length (parents_1 ! i) = ga_num_dims self" "length (parents_2 ! i) = ga_num_dims self"
    if "i < n" for i
  proof -
    from el1 [OF that] obtain j where j: "j < n"
      "parents_1 ! i = ga_population state ! (argsort (ga_fitness state) ! j)" by blast
    have "argsort (ga_fitness state) ! j < length (ga_population state)"
      using j(1) by (intro SimpleGA_sorted_nth(2)) (simp_all add: lp lf)
    then show "length (parents_1 ! i) = ga_num_dims self"
      using rows j(2) by (simp add: list_all_length)
    from el2 [OF that] obtain j where j: "j < n"
      "parents_2 ! i = ga_population state ! (argsort (ga_fitness state) ! j)" by blast
    have "argsort (ga_fitness state) ! j < length (ga_population state)"
      using j(1) by (intro SimpleGA_sorted_nth(2)) (simp_all add: lp lf)
    then show "length (parents_2 ! i) = ga_num_dims self"
      using rows j(2) by (simp add: list_all_length)
  qed
  have "map (\<lambda>i. crossover rng (jax_split rng (jax_split rng key 4 ! 0) n ! i)
                    (parents_1 ! i) (parents_2 ! i) 0) [0..<n] = parents_1"
    by (rule nth_equalityI) (simp_all add: l1 crossover_rate_0 [OF assms(1)] dims)
  then have cr: "SimpleGA_crossed rng self key state params = Inr parents_1"
    by (simp add: SimpleGA_crossed_def par bind_err_def Let_def assms(4) n_def)
  have ask: "SimpleGA_ask rng self key state params =
        Inr (map (\<lambda>i. map2 (\<lambda>s z. s + ga_std state * z) (parents_1 ! i)
                         (jax_normal1 rng (jax_split rng (jax_split rng key 4 ! 1) n ! i)
                            (length (parents_1 ! i))))
               [0..<n], state)"
    by (simp add: SimpleGA_ask_def cr bind_err_def Let_def mutation_def n_def)
  show ?thesis
    using par l1 l2 cr ask el1 el2 unfolding n_def by blast
qed

lemma uniform_range0: "uniform_range rng0"
  by (simp add: uniform_range_def rng0_def)

lemma ga_shaped0: "ga_shaped ga0 ga_state0"
  by (simp add: ga_shaped_def ga0_def SimpleGA_init_def ga_state0_def)

lemma upt4: "[0..<4] = [0, 1, 2, 3]"
  by (simp add: upt_rec numeral_nat)

lemma argsort_ga0: "argsort [18, 2, 8, 0] = [3, 1, 2, 0]"
  by (simp add: argsort_def upt4)

lemma sorted_ga0: "SimpleGA_sorted ga_state0 = [[0, 0], [1, 1], [2, 2], [3, 3]]"
  by (simp add: SimpleGA_sorted_def ga_state0_def argsort_ga0 take_clamped_def)

lemma p_ga0: "SimpleGA_p ga0 = [1, 1, 0, 0]"
  by (simp add: SimpleGA_p_def ga0_def SimpleGA_init_def upt4)

lemma choice_ga0: "choice_indices rng0 k 4 [1, 1, 0, 0] = [0, 0, 0, 0]"
  by (simp add: choice_indices_def cumsum_def searchsorted_def rng0_def upt4)

lemma parents_ga0:
  "SimpleGA_parents rng0 ga0 0 ga_state0
     = Inr ([[0, 0], [0, 0], [0, 0], [0, 0]], [[0, 0], [0, 0], [0, 0], [0, 0]])"
proof -
  have n: "ga_population_size ga0 = 4" by (simp add: ga0_def SimpleGA_init_def)
  have l: "length (ga_population ga_state0) = ga_population_size ga0"
    "length (ga_fitness ga_state0) = ga_population_size ga0"
    by (simp_all add: n ga_state0_def)
  show ?thesis
    unfolding SimpleGA_parents_returns [OF l] n sorted_ga0 p_ga0 choice_ga0
    by simp
qed

theorem SimpleGA_ask_elite_parents_witness:
  "uniform_range rng0 \<and> 0 < num_elites ga0 \<and> ga_shaped ga0 ga_state0 \<and>
   crossover_rate ga_params0 = 0 \<and>
   SimpleGA_crossed rng0 ga0 0 ga_state0 ga_params0 = Inr [[0, 0], [0, 0], [0, 0], [0, 0]]"
proof -
  have h2: "0 < num_elites ga0" by (simp add: ga0_def SimpleGA_init_def)
  have h4: "crossover_rate ga_params0 = 0" by (simp add: ga_params0_def)
  from SimpleGA_ask_elite_parents [OF uniform_range0 h2 ga_shaped0 h4, of 0]
  obtain parents_1 parents_2 where
    "SimpleGA_parents rng0 ga0 0 ga_state0 = Inr (parents_1, parents_2)"
    "SimpleGA_crossed rng0 ga0 0 ga_state0 ga_params0 = Inr parents_1"
    by blast
  then have "SimpleGA_crossed rng0 ga0 0 ga_state0 ga_params0 = Inr [[0, 0], [0, 0], [0, 0], [0, 0]]"
    by (simp add: parents_ga0)
  with uniform_range0 h2 ga_shaped0 h4 show ?thesis by blast
qed

end
